theory Spec2Isabelle
  imports Main "HOL-Library.Word"
begin

unbundle bit_operations_syntax

section \<open>Data model of \<open>registryWrapper/wrapper.cpp\<close>\<close>

text \<open>
  The four functions of \<open>Wrapper\<close> take wide-character strings (\<open>LPCWSTR\<close>) and \<open>DWORD\<close>s.
  The target is Windows, where \<open>wchar_t\<close> has 16 bits and \<open>DWORD\<close> and \<open>LSTATUS\<close> have 32.
  A wide string is modelled by the characters found at its pointer: reading stops at the
  first \<open>0\<close>, and the end of the list stands for the terminating \<open>0\<close>.
\<close>

type_synonym wchar_t = "16 word"
type_synonym wstr = "wchar_t list"
type_synonym BYTE = "8 word"
type_synonym DWORD = "32 word"
type_synonym LSTATUS = "32 word"

text \<open>The build decides the size of a pointer and of \<open>size_t\<close>.\<close>

datatype build = Win32 | Win64

fun sizeof_ptr :: "build \<Rightarrow> nat" where
  "sizeof_ptr Win32 = 4"
| "sizeof_ptr Win64 = 8"

definition sizeof_wchar_t :: nat where
  "sizeof_wchar_t = 2"

definition sizeof_DWORD :: nat where
  "sizeof_DWORD = 4"

text \<open>Arithmetic in \<open>size_t\<close> wraps at the width of a pointer.\<close>

definition size_t :: "build \<Rightarrow> nat \<Rightarrow> nat" where
  "size_t b n = n mod 2 ^ (8 * sizeof_ptr b)"

text \<open>
  Registry handles: the three predefined roots the source names, and handles the system
  gives out when a key is created or opened.
\<close>

datatype HKEY = HKEY_CURRENT_USER | HKEY_LOCAL_MACHINE | HKEY_CLASSES_ROOT | Opened nat

text \<open>Constants of the Windows headers that the source passes on.\<close>

definition ERROR_SUCCESS :: LSTATUS where
  "ERROR_SUCCESS = 0"

definition REG_OPTION_NON_VOLATILE :: DWORD where
  "REG_OPTION_NON_VOLATILE = 0"

definition KEY_WRITE :: DWORD where
  "KEY_WRITE = 0x20006"

definition KEY_ALL_ACCESS :: DWORD where
  "KEY_ALL_ACCESS = 0xF003F"

definition MB_ICONERROR :: DWORD where
  "MB_ICONERROR = 0x10"

text \<open>
  The registry itself is outside the program. What its primitives answer is a parameter of
  every operation: a status for each call, and the handle written through the out pointer
  where there is one. Each operation calls each primitive at most once, so a function of
  the arguments is enough.
\<close>

record winapi =
  RegCreateKeyEx :: "HKEY \<Rightarrow> wstr \<Rightarrow> DWORD \<Rightarrow> DWORD \<Rightarrow> LSTATUS \<times> HKEY"
  RegSetValueEx :: "HKEY \<Rightarrow> wstr \<Rightarrow> DWORD \<Rightarrow> BYTE list \<Rightarrow> DWORD \<Rightarrow> LSTATUS"
  RegDeleteKey :: "HKEY \<Rightarrow> wstr \<Rightarrow> LSTATUS"
  RegOpenKeyEx :: "HKEY \<Rightarrow> wstr \<Rightarrow> DWORD \<Rightarrow> LSTATUS \<times> HKEY"
  RegDeleteValue :: "HKEY \<Rightarrow> wstr \<Rightarrow> LSTATUS"

text \<open>
  The effects of an operation are the system calls it makes, in order, with their
  arguments. \<open>SetValueEx\<close> records the bytes at the data pointer that the length covers,
  and the length.
\<close>

datatype call =
  CreateKeyEx HKEY wstr DWORD DWORD
| SetValueEx HKEY wstr DWORD "BYTE list" DWORD
| CloseKey HKEY
| DeleteKey HKEY wstr
| OpenKeyEx HKEY wstr DWORD
| DeleteValue HKEY wstr
| MessageBoxA string string DWORD

text \<open>The only exception the source throws; \<open>std::runtime_error\<close> derives from \<open>std::exception\<close>.\<close>

datatype exn = runtime_error string

text \<open>
  Reading an array outside its bounds has no defined behaviour. A run that faults at such a
  read ends there, with the index of the read.
\<close>

datatype fault = OutOfBounds nat

section \<open>Strings\<close>

text \<open>The character a pointer sees first: the terminator at the end of the list.\<close>

fun peek :: "wstr \<Rightarrow> wchar_t" where
  "peek [] = 0"
| "peek (c # cs) = c"

text \<open>
  A wide literal \<open>L"..."\<close> of ASCII characters: each character widened to \<open>wchar_t\<close>.
  \<open>bsl\<close> is the backslash.
\<close>

definition wide :: "string \<Rightarrow> wstr" where
  "wide s = map of_char s"

definition bsl :: char where
  "bsl = CHR 0x5C"

text \<open>\<open>wcsncmp\<close>: compares at most \<open>n\<close> characters and stops after a common terminator.\<close>

fun wcsncmp :: "wstr \<Rightarrow> wstr \<Rightarrow> nat \<Rightarrow> int" where
  "wcsncmp s1 s2 0 = 0"
| "wcsncmp s1 s2 (Suc n) =
     (if peek s1 \<noteq> peek s2 then (if peek s1 < peek s2 then - 1 else 1)
      else if peek s1 = 0 then 0
      else wcsncmp (tl s1) (tl s2) n)"

text \<open>\<open>wcslen\<close>: the number of characters before the terminator.\<close>

fun wcslen :: "wstr \<Rightarrow> nat" where
  "wcslen [] = 0"
| "wcslen (c # cs) = (if c = 0 then 0 else Suc (wcslen cs))"

text \<open>Object representations, least significant byte first as on every Windows target.\<close>

definition wchar_bytes :: "wchar_t \<Rightarrow> BYTE list" where
  "wchar_bytes c = [ucast c, ucast (drop_bit 8 c)]"

definition dword_bytes :: "DWORD \<Rightarrow> BYTE list" where
  "dword_bytes v = [ucast v, ucast (drop_bit 8 v), ucast (drop_bit 16 v), ucast (drop_bit 24 v)]"

definition dword_of_bytes :: "BYTE list \<Rightarrow> DWORD" where
  "dword_of_bytes bs = foldr (\<lambda>b acc. ucast b OR push_bit 8 acc) bs 0"

text \<open>
  The bytes of a wide string up to and including its terminator. A read of \<open>n\<close> bytes at
  the pointer sees the first \<open>n\<close> of them.
\<close>

fun wstr_bytes :: "wstr \<Rightarrow> BYTE list" where
  "wstr_bytes [] = wchar_bytes 0"
| "wstr_bytes (c # cs) = (if c = 0 then wchar_bytes 0 else wchar_bytes c @ wstr_bytes cs)"

section \<open>Resolving the root key\<close>

text \<open>
  \<open>const wchar_t* branch[] { L"HKCU\\", L"HKLM\\", L"HKCR\\" }\<close> and
  \<open>HKEY keys[] { HKEY_CURRENT_USER, HKEY_LOCAL_MACHINE, HKEY_CLASSES_ROOT }\<close>.
\<close>

definition HKCU_prefix :: wstr where
  "HKCU_prefix = wide (''HKCU'' @ [bsl])"

definition HKLM_prefix :: wstr where
  "HKLM_prefix = wide (''HKLM'' @ [bsl])"

definition HKCR_prefix :: wstr where
  "HKCR_prefix = wide (''HKCR'' @ [bsl])"

definition branch :: "wstr list" where
  "branch = [HKCU_prefix, HKLM_prefix, HKCR_prefix]"

definition keys :: "HKEY list" where
  "keys = [HKEY_CURRENT_USER, HKEY_LOCAL_MACHINE, HKEY_CLASSES_ROOT]"

text \<open>\<open>sizeof(branch)\<close>: an array of three pointers.\<close>

definition sizeof_branch :: "build \<Rightarrow> nat" where
  "sizeof_branch b = length branch * sizeof_ptr b"

text \<open>An array read: \<open>None\<close> outside the array.\<close>

definition at :: "'a list \<Rightarrow> nat \<Rightarrow> 'a option" where
  "at xs j = (if j < length xs then Some (xs ! j) else None)"

text \<open>
  What lies behind the array is not fixed by the source, so it is a parameter of the loop:
  \<open>mem j\<close> is what a read of \<open>branch[j]\<close> with \<open>j\<close> outside the array hands to \<open>wcsncmp\<close>,
  \<open>None\<close> when the read or the comparison faults and \<open>Some s\<close> when the slot happens to
  point at the wide string \<open>s\<close>. Reads inside the array do not consult it.
\<close>

type_synonym memory = "nat \<Rightarrow> wstr option"

text \<open>The memory in which every read outside the array faults.\<close>

definition faulting :: memory where
  "faulting = (\<lambda>j. None)"

text \<open>
  The loop \<open>for (int j = 0; j < sizeof(branch); j++)\<close> with its bound as a parameter,
  started at \<open>j\<close> with the current \<open>rootKey\<close> and \<open>path\<close>. A match sets \<open>rootKey = keys[j]\<close>,
  advances \<open>path\<close> by five characters and leaves the loop; a match at a slot outside the
  arrays would read \<open>keys[j]\<close> outside its array, a fault. The result comes with the indices
  at which the loop evaluated \<open>branch[j]\<close>, in order.
\<close>

function find_root_loop ::
  "memory \<Rightarrow> nat \<Rightarrow> nat \<Rightarrow> HKEY \<Rightarrow> wstr \<Rightarrow> nat list \<times> (fault + HKEY \<times> wstr)" where
  "find_root_loop mem bound j rootKey path =
     (if j < bound then
        (case (if j < length branch then at branch j else mem j) of
           None \<Rightarrow> ([j], Inl (OutOfBounds j))
         | Some pre \<Rightarrow>
             if wcsncmp path pre 5 = 0 then
               (case at keys j of
                  None \<Rightarrow> ([j], Inl (OutOfBounds j))
                | Some k \<Rightarrow> ([j], Inr (k, drop 5 path)))
             else apfst ((#) j) (find_root_loop mem bound (Suc j) rootKey path))
      else ([], Inr (rootKey, path)))"
  by pat_completeness auto
termination
  by (relation "measure (\<lambda>(mem, bound, j, rootKey, path). bound - j)") auto

declare find_root_loop.simps [simp del]

text \<open>
  The first lines of each operation: \<open>rootKey\<close> starts as \<open>HKEY_CURRENT_USER\<close> and the loop
  runs from \<open>j = 0\<close> up to \<open>sizeof(branch)\<close>.
\<close>

definition find_root_in :: "memory \<Rightarrow> build \<Rightarrow> wstr \<Rightarrow> nat list \<times> (fault + HKEY \<times> wstr)" where
  "find_root_in mem b path = find_root_loop mem (sizeof_branch b) 0 HKEY_CURRENT_USER path"

text \<open>
  What the loop resolves when reads outside the array fault. The operations below are
  written over this run.
\<close>

definition find_root :: "build \<Rightarrow> wstr \<Rightarrow> fault + HKEY \<times> wstr" where
  "find_root b path = snd (find_root_in faulting b path)"

section \<open>The operations\<close>

text \<open>
  A \<open>try\<close> block gives the calls it made and the exception it threw, if any. The handler
  \<open>catch (const std::exception& ex)\<close> shows \<open>ex.what()\<close> in a message box and the function
  returns; what is left after it is the exception still in flight, if any.
\<close>

type_synonym block = "call list \<times> exn option"

fun catch_std_exception :: "block \<Rightarrow> block" where
  "catch_std_exception (cs, None) = (cs, None)"
| "catch_std_exception (cs, Some (runtime_error what)) =
     (cs @ [MessageBoxA what ''error'' MB_ICONERROR], None)"

text \<open>
  The length argument of the text overload, \<open>(wcslen(value) + 1) * sizeof(wchar_t)\<close>: computed
  in \<open>size_t\<close> and converted to the \<open>DWORD\<close> parameter \<open>cbData\<close>.
\<close>

definition text_cbData :: "build \<Rightarrow> wstr \<Rightarrow> DWORD" where
  "text_cbData b val = word_of_nat (size_t b (size_t b (wcslen val + 1) * sizeof_wchar_t))"

definition RegWrite_text_try ::
  "winapi \<Rightarrow> build \<Rightarrow> HKEY \<Rightarrow> wstr \<Rightarrow> wstr \<Rightarrow> wstr \<Rightarrow> DWORD \<Rightarrow> block" where
  "RegWrite_text_try api b rootKey path name val type =
     (let (st, h) = RegCreateKeyEx api rootKey path REG_OPTION_NON_VOLATILE KEY_WRITE;
          c1 = CreateKeyEx rootKey path REG_OPTION_NON_VOLATILE KEY_WRITE
      in if st = ERROR_SUCCESS then
           (let cb = text_cbData b val;
                data = take (unat cb) (wstr_bytes val);
                c2 = SetValueEx h name type data cb
            in if RegSetValueEx api h name type data cb = ERROR_SUCCESS
               then ([c1, c2, CloseKey h], None)
               else ([c1, c2], Some (runtime_error ''failed to RegSetValueEx'')))
         else ([c1], Some (runtime_error ''failed to RegCreateKeyEx'')))"

definition RegWrite_text ::
  "winapi \<Rightarrow> build \<Rightarrow> wstr \<Rightarrow> wstr \<Rightarrow> wstr \<Rightarrow> DWORD \<Rightarrow> fault + block" where
  "RegWrite_text api b path name val type =
     (case find_root b path of
        Inl f \<Rightarrow> Inl f
      | Inr (rootKey, p) \<Rightarrow>
          Inr (catch_std_exception (RegWrite_text_try api b rootKey p name val type)))"

definition RegWrite_dword_try ::
  "winapi \<Rightarrow> HKEY \<Rightarrow> wstr \<Rightarrow> wstr \<Rightarrow> DWORD \<Rightarrow> DWORD \<Rightarrow> block" where
  "RegWrite_dword_try api rootKey path name val type =
     (let (st, h) = RegCreateKeyEx api rootKey path REG_OPTION_NON_VOLATILE KEY_WRITE;
          c1 = CreateKeyEx rootKey path REG_OPTION_NON_VOLATILE KEY_WRITE
      in if st = ERROR_SUCCESS then
           (let cb = word_of_nat sizeof_DWORD;
                data = take (unat cb) (dword_bytes val);
                c2 = SetValueEx h name type data cb
            in if RegSetValueEx api h name type data cb = ERROR_SUCCESS
               then ([c1, c2, CloseKey h], None)
               else ([c1, c2], Some (runtime_error ''failed to RegSetValueEx'')))
         else ([c1], Some (runtime_error ''failed to RegCreateKeyEx'')))"

definition RegWrite_dword ::
  "winapi \<Rightarrow> build \<Rightarrow> wstr \<Rightarrow> wstr \<Rightarrow> DWORD \<Rightarrow> DWORD \<Rightarrow> fault + block" where
  "RegWrite_dword api b path name val type =
     (case find_root b path of
        Inl f \<Rightarrow> Inl f
      | Inr (rootKey, p) \<Rightarrow>
          Inr (catch_std_exception (RegWrite_dword_try api rootKey p name val type)))"

definition RegDel_key_try :: "winapi \<Rightarrow> HKEY \<Rightarrow> wstr \<Rightarrow> block" where
  "RegDel_key_try api rootKey path =
     (let c1 = DeleteKey rootKey path
      in if RegDeleteKey api rootKey path = ERROR_SUCCESS
         then ([c1, CloseKey rootKey], None)
         else ([c1], Some (runtime_error ''failed to RegDeleteKey'')))"

definition RegDel_key :: "winapi \<Rightarrow> build \<Rightarrow> wstr \<Rightarrow> fault + block" where
  "RegDel_key api b path =
     (case find_root b path of
        Inl f \<Rightarrow> Inl f
      | Inr (rootKey, p) \<Rightarrow> Inr (catch_std_exception (RegDel_key_try api rootKey p)))"

definition RegDel_value_try :: "winapi \<Rightarrow> HKEY \<Rightarrow> wstr \<Rightarrow> wstr \<Rightarrow> block" where
  "RegDel_value_try api rootKey path name =
     (let (st, h) = RegOpenKeyEx api rootKey path KEY_ALL_ACCESS;
          c1 = OpenKeyEx rootKey path KEY_ALL_ACCESS
      in if st = ERROR_SUCCESS then
           (let c2 = DeleteValue h name
            in if RegDeleteValue api h name = ERROR_SUCCESS
               then ([c1, c2, CloseKey h], None)
               else ([c1, c2], Some (runtime_error ''failed to RegDeleteValue'')))
         else ([c1], Some (runtime_error ''failed to RegOpenKeyEx'')))"

definition RegDel_value :: "winapi \<Rightarrow> build \<Rightarrow> wstr \<Rightarrow> wstr \<Rightarrow> fault + block" where
  "RegDel_value api b path name =
     (case find_root b path of
        Inl f \<Rightarrow> Inl f
      | Inr (rootKey, p) \<Rightarrow> Inr (catch_std_exception (RegDel_value_try api rootKey p name)))"

section \<open>Observing a run\<close>

text \<open>
  Whether the registry answered a call with a status other than \<open>ERROR_SUCCESS\<close>. The
  source tests the status of five primitives; it discards what \<open>RegCloseKey\<close> and
  \<open>MessageBoxA\<close> return.
\<close>

fun failed :: "winapi \<Rightarrow> call \<Rightarrow> bool" where
  "failed api (CreateKeyEx k p opt sam) = (fst (RegCreateKeyEx api k p opt sam) \<noteq> ERROR_SUCCESS)"
| "failed api (SetValueEx h n t d cb) = (RegSetValueEx api h n t d cb \<noteq> ERROR_SUCCESS)"
| "failed api (DeleteKey k p) = (RegDeleteKey api k p \<noteq> ERROR_SUCCESS)"
| "failed api (OpenKeyEx k p sam) = (fst (RegOpenKeyEx api k p sam) \<noteq> ERROR_SUCCESS)"
| "failed api (DeleteValue h n) = (RegDeleteValue api h n \<noteq> ERROR_SUCCESS)"
| "failed api (CloseKey h) = False"
| "failed api (MessageBoxA t c f) = False"

text \<open>The text of the \<open>runtime_error\<close> that the source throws after each tested primitive.\<close>

fun diagnostic :: "call \<Rightarrow> string" where
  "diagnostic (CreateKeyEx k p opt sam) = ''failed to RegCreateKeyEx''"
| "diagnostic (SetValueEx h n t d cb) = ''failed to RegSetValueEx''"
| "diagnostic (DeleteKey k p) = ''failed to RegDeleteKey''"
| "diagnostic (OpenKeyEx k p sam) = ''failed to RegOpenKeyEx''"
| "diagnostic (DeleteValue h n) = ''failed to RegDeleteValue''"
| "diagnostic (CloseKey h) = []"
| "diagnostic (MessageBoxA t c f) = []"

definition diagnostics :: "string list" where
  "diagnostics = [''failed to RegCreateKeyEx'', ''failed to RegSetValueEx'',
     ''failed to RegDeleteKey'', ''failed to RegOpenKeyEx'', ''failed to RegDeleteValue'']"

fun is_MessageBoxA :: "call \<Rightarrow> bool" where
  "is_MessageBoxA (MessageBoxA t c f) = True"
| "is_MessageBoxA c = False"

fun is_CloseKey :: "call \<Rightarrow> bool" where
  "is_CloseKey (CloseKey h) = True"
| "is_CloseKey c = False"

text \<open>
  What a caller gets back from an operation. The four functions return \<open>void\<close>: apart from
  a fault, the caller could only see an exception still in flight.
\<close>

fun completion :: "fault + block \<Rightarrow> fault + exn option" where
  "completion (Inl f) = Inl f"
| "completion (Inr (cs, x)) = Inr x"

text \<open>Calls that all succeeded, with no message box and no \<open>RegCloseKey\<close> among them.\<close>

definition quiet :: "winapi \<Rightarrow> call list \<Rightarrow> bool" where
  "quiet api cs = (\<forall>c \<in> set cs. \<not> failed api c \<and> \<not> is_MessageBoxA c \<and> \<not> is_CloseKey c)"

section \<open>Sample registries\<close>

text \<open>
  Three answers of the system for the worked examples: every primitive succeeds and hands out
  handle 1; every primitive is refused with \<open>ERROR_ACCESS_DENIED\<close>; keys can be created and
  opened, but values can be neither set nor deleted.
\<close>

definition ERROR_ACCESS_DENIED :: LSTATUS where
  "ERROR_ACCESS_DENIED = 5"

definition registry_ok :: winapi where
  "registry_ok =
     \<lparr>RegCreateKeyEx = (\<lambda>k p opt sam. (ERROR_SUCCESS, Opened 1)),
      RegSetValueEx = (\<lambda>h n t d cb. ERROR_SUCCESS),
      RegDeleteKey = (\<lambda>k p. ERROR_SUCCESS),
      RegOpenKeyEx = (\<lambda>k p sam. (ERROR_SUCCESS, Opened 1)),
      RegDeleteValue = (\<lambda>h n. ERROR_SUCCESS)\<rparr>"

definition registry_denied :: winapi where
  "registry_denied =
     \<lparr>RegCreateKeyEx = (\<lambda>k p opt sam. (ERROR_ACCESS_DENIED, k)),
      RegSetValueEx = (\<lambda>h n t d cb. ERROR_ACCESS_DENIED),
      RegDeleteKey = (\<lambda>k p. ERROR_ACCESS_DENIED),
      RegOpenKeyEx = (\<lambda>k p sam. (ERROR_ACCESS_DENIED, k)),
      RegDeleteValue = (\<lambda>h n. ERROR_ACCESS_DENIED)\<rparr>"

definition registry_values_locked :: winapi where
  "registry_values_locked =
     \<lparr>RegCreateKeyEx = (\<lambda>k p opt sam. (ERROR_SUCCESS, Opened 1)),
      RegSetValueEx = (\<lambda>h n t d cb. ERROR_ACCESS_DENIED),
      RegDeleteKey = (\<lambda>k p. ERROR_ACCESS_DENIED),
      RegOpenKeyEx = (\<lambda>k p sam. (ERROR_SUCCESS, Opened 1)),
      RegDeleteValue = (\<lambda>h n. ERROR_ACCESS_DENIED)\<rparr>"

text \<open>
  The path \<open>L"HKCU\\Software\\Test"\<close> and its subkey, and the type tags \<open>REG_SZ\<close> and
  \<open>REG_DWORD\<close> a caller may pass.
\<close>

definition sample_path :: wstr where
  "sample_path = wide (''HKCU'' @ bsl # ''Software'' @ bsl # ''Test'')"

definition sample_subkey :: wstr where
  "sample_subkey = wide (''Software'' @ bsl # ''Test'')"

text \<open>The same subkey under the machine root, \<open>L"HKLM\\Software\\Test"\<close>.\<close>

definition sample_machine_path :: wstr where
  "sample_machine_path = wide (''HKLM'' @ bsl # ''Software'' @ bsl # ''Test'')"

definition REG_SZ :: DWORD where
  "REG_SZ = 1"

definition REG_DWORD :: DWORD where
  "REG_DWORD = 4"

lemmas registry_defs =
  registry_ok_def registry_denied_def registry_values_locked_def
  ERROR_SUCCESS_def ERROR_ACCESS_DENIED_def

section \<open>Lengths and bytes\<close>

lemma dword_roundtrip: "dword_of_bytes (dword_bytes v) = v"
proof (rule bit_word_eqI)
  fix n
  assume "n < LENGTH(32)"
  then have n: "n < 32" by simp
  consider "n < 8" | "8 \<le> n" "n < 16" | "16 \<le> n" "n < 24" | "24 \<le> n"
    by linarith
  then show "bit (dword_of_bytes (dword_bytes v)) n = bit v n"
    using n by cases (auto simp: dword_of_bytes_def dword_bytes_def bit_simps)
qed

lemma length_dword_bytes: "length (dword_bytes v) = sizeof_DWORD"
  by (simp add: dword_bytes_def sizeof_DWORD_def)

lemma length_wstr_bytes: "length (wstr_bytes val) = (wcslen val + 1) * sizeof_wchar_t"
  by (induction val) (simp_all add: wchar_bytes_def sizeof_wchar_t_def)

lemma size_t_dvd: "(2::nat) ^ 32 dvd 2 ^ (8 * sizeof_ptr b)"
  by (cases b) (simp_all add: le_imp_power_dvd)

text \<open>Both \<open>size_t\<close> widths are multiples of 32 bits, so only the conversion to \<open>DWORD\<close> shows.\<close>

lemma unat_text_cbData:
  "unat (text_cbData b val) = ((wcslen val + 1) * sizeof_wchar_t) mod 2 ^ 32"
proof -
  define M :: nat where "M = 2 ^ (8 * sizeof_ptr b)"
  define x where "x = wcslen val + 1"
  have d: "(2::nat) ^ 32 dvd M"
    unfolding M_def by (rule size_t_dvd)
  have "unat (text_cbData b val) = (x mod M * sizeof_wchar_t) mod M mod 2 ^ 32"
    by (simp add: text_cbData_def unat_of_nat size_t_def M_def x_def)
  also have "\<dots> = (x mod M * sizeof_wchar_t) mod 2 ^ 32"
    by (rule mod_mod_cancel [OF d])
  also have "\<dots> = (x mod M mod 2 ^ 32 * sizeof_wchar_t) mod 2 ^ 32"
    by (simp only: mod_mult_left_eq)
  also have "\<dots> = (x mod 2 ^ 32 * sizeof_wchar_t) mod 2 ^ 32"
    by (simp only: mod_mod_cancel [OF d])
  also have "\<dots> = (x * sizeof_wchar_t) mod 2 ^ 32"
    by (simp only: mod_mult_left_eq)
  finally show ?thesis by (simp only: x_def)
qed

lemma wcslen_replicate: "c \<noteq> 0 \<Longrightarrow> wcslen (replicate n c) = n"
  by (induction n) simp_all

section \<open>Prefix matching\<close>

lemma wcsncmp_prefix:
  "0 \<notin> set pre \<Longrightarrow> length pre = n \<Longrightarrow> (wcsncmp path pre n = 0) = (take n path = pre)"
proof (induction pre arbitrary: path n)
  case Nil
  then show ?case by simp
next
  case (Cons c cs)
  then obtain m where n: "n = Suc m" and m: "length cs = m" by (cases n) auto
  from Cons.prems have c: "c \<noteq> 0" and cs: "0 \<notin> set cs" by auto
  show ?case
  proof (cases path)
    case Nil
    with c n show ?thesis by auto
  next
    case (Cons d ds)
    with c n Cons.IH [OF cs m, of ds] show ?thesis by auto
  qed
qed

lemmas prefix_defs = HKCU_prefix_def HKLM_prefix_def HKCR_prefix_def

lemma branch_no_nul: "pre \<in> set branch \<Longrightarrow> 0 \<notin> set pre \<and> length pre = 5"
  by (auto simp: branch_def wide_def bsl_def prefix_defs)

lemma prefixes_distinct:
  "HKCU_prefix \<noteq> HKLM_prefix" "HKCU_prefix \<noteq> HKCR_prefix" "HKLM_prefix \<noteq> HKCR_prefix"
  by (simp_all add: prefix_defs wide_def)

lemma at_branch:
  "at branch 0 = Some HKCU_prefix"
  "at branch 1 = Some HKLM_prefix"
  "at branch 2 = Some HKCR_prefix"
  "3 \<le> j \<Longrightarrow> at branch j = None"
  by (simp_all add: at_def branch_def)

lemma at_keys:
  "at keys 0 = Some HKEY_CURRENT_USER"
  "at keys 1 = Some HKEY_LOCAL_MACHINE"
  "at keys 2 = Some HKEY_CLASSES_ROOT"
  by (simp_all add: at_def keys_def)

lemma matches_prefix:
  "pre \<in> set branch \<Longrightarrow> (wcsncmp path pre 5 = 0) = (take 5 path = pre)"
  using branch_no_nul [of pre] wcsncmp_prefix [of pre 5 path] by simp

lemma in_branch:
  "HKCU_prefix \<in> set branch" "HKLM_prefix \<in> set branch" "HKCR_prefix \<in> set branch"
  by (simp_all add: branch_def)

lemma set_branch: "set branch = {HKCU_prefix, HKLM_prefix, HKCR_prefix}"
  by (simp add: branch_def)

lemma sizeof_branch_eq: "sizeof_branch b = 3 * sizeof_ptr b"
  by (simp add: sizeof_branch_def branch_def)

lemma sizeof_branch_gt: "3 < sizeof_branch b"
  by (cases b) (simp_all add: sizeof_branch_eq)

text \<open>The three in-range iterations; the fourth starts at index 3, outside the array.\<close>

lemma find_root_in_cases:
  "find_root_in mem b path =
     (if take 5 path = HKCU_prefix then ([0], Inr (HKEY_CURRENT_USER, drop 5 path))
      else if take 5 path = HKLM_prefix then ([0, 1], Inr (HKEY_LOCAL_MACHINE, drop 5 path))
      else if take 5 path = HKCR_prefix then ([0, 1, 2], Inr (HKEY_CLASSES_ROOT, drop 5 path))
      else apfst (\<lambda>js. 0 # 1 # 2 # js)
             (find_root_loop mem (sizeof_branch b) 3 HKEY_CURRENT_USER path))"
proof -
  have lt: "0 < sizeof_branch b" "1 < sizeof_branch b" "2 < sizeof_branch b"
    using sizeof_branch_gt [of b] by simp_all
  have len: "length branch = 3" by (simp add: branch_def)
  show ?thesis
    unfolding find_root_in_def
    by (simp add: find_root_loop.simps [of _ _ 0] find_root_loop.simps [of _ _ 1]
        find_root_loop.simps [of _ _ 2] lt len at_branch at_keys
        matches_prefix [OF in_branch(1)] matches_prefix [OF in_branch(2)]
        matches_prefix [OF in_branch(3)] apfst_def map_prod_def split_beta
        flip: One_nat_def)
qed


lemma loop_fault_outside:
  "mem 3 = None \<Longrightarrow>
   find_root_loop mem (sizeof_branch b) 3 rootKey path = ([3], Inl (OutOfBounds 3))"
  using sizeof_branch_gt [of b]
  by (simp add: find_root_loop.simps [of _ _ 3] branch_def)


lemma find_root_cases:
  "find_root b path =
     (if take 5 path = HKCU_prefix then Inr (HKEY_CURRENT_USER, drop 5 path)
      else if take 5 path = HKLM_prefix then Inr (HKEY_LOCAL_MACHINE, drop 5 path)
      else if take 5 path = HKCR_prefix then Inr (HKEY_CLASSES_ROOT, drop 5 path)
      else Inl (OutOfBounds 3))"
  by (simp add: find_root_def find_root_in_cases loop_fault_outside faulting_def)

lemma find_root_known:
  assumes "(pre, k) \<in> {(HKCU_prefix, HKEY_CURRENT_USER), (HKLM_prefix, HKEY_LOCAL_MACHINE),
                        (HKCR_prefix, HKEY_CLASSES_ROOT)}"
    and "take 5 path = pre"
  shows "find_root b path = Inr (k, drop 5 path)"
  using assms prefixes_distinct by (auto simp: find_root_cases)

lemma find_root_unknown:
  "take 5 path \<notin> set branch \<Longrightarrow> find_root b path = Inl (OutOfBounds 3)"
  by (simp add: find_root_cases set_branch)

lemma operations_unknown:
  assumes "take 5 path \<notin> set branch"
  shows "find_root b path = Inl (OutOfBounds 3) \<and>
      find_root b path \<noteq> Inr (HKEY_CURRENT_USER, path) \<and>
      RegWrite_text api b path name val type = Inl (OutOfBounds 3) \<and>
      RegWrite_dword api b path name dval type = Inl (OutOfBounds 3) \<and>
      RegDel_key api b path = Inl (OutOfBounds 3) \<and>
      RegDel_value api b path name = Inl (OutOfBounds 3)"
  using find_root_unknown [OF assms, of b]
  by (simp add: RegWrite_text_def RegWrite_dword_def RegDel_key_def RegDel_value_def)

text \<open>Had the loop been bounded by the number of elements, an unmatched path would fall through.\<close>

lemma element_count_bound_falls_through:
  assumes "take 5 path \<notin> set branch"
  shows "find_root_loop mem (length branch) 0 HKEY_CURRENT_USER path =
    ([0, 1, 2], Inr (HKEY_CURRENT_USER, path))"
proof -
  have len: "length branch = 3" by (simp add: branch_def)
  from assms show ?thesis
    unfolding len
    by (simp add: find_root_loop.simps [of _ _ 0] find_root_loop.simps [of _ _ 1]
        find_root_loop.simps [of _ _ 2] find_root_loop.simps [of _ _ 3] len at_branch at_keys
        matches_prefix [OF in_branch(1)] matches_prefix [OF in_branch(2)]
        matches_prefix [OF in_branch(3)] set_branch
        flip: One_nat_def)
qed

text \<open>Each operation is its \<open>try\<close> block run on what the loop resolved.\<close>

lemma RegWrite_text_resolved:
  "find_root b path = Inr (k, p) \<Longrightarrow>
   RegWrite_text api b path name val type =
     Inr (catch_std_exception (RegWrite_text_try api b k p name val type))"
  by (simp add: RegWrite_text_def)

lemma RegWrite_dword_resolved:
  "find_root b path = Inr (k, p) \<Longrightarrow>
   RegWrite_dword api b path name dval type =
     Inr (catch_std_exception (RegWrite_dword_try api k p name dval type))"
  by (simp add: RegWrite_dword_def)

lemma RegDel_key_resolved:
  "find_root b path = Inr (k, p) \<Longrightarrow>
   RegDel_key api b path = Inr (catch_std_exception (RegDel_key_try api k p))"
  by (simp add: RegDel_key_def)

lemma RegDel_value_resolved:
  "find_root b path = Inr (k, p) \<Longrightarrow>
   RegDel_value api b path name = Inr (catch_std_exception (RegDel_value_try api k p name))"
  by (simp add: RegDel_value_def)

text \<open>The blocks after the handler, written out by cases on what the registry answers.\<close>

lemma RegWrite_text_caught:
  "catch_std_exception (RegWrite_text_try api b k p name val type) =
     (let c1 = CreateKeyEx k p REG_OPTION_NON_VOLATILE KEY_WRITE;
          h = snd (RegCreateKeyEx api k p REG_OPTION_NON_VOLATILE KEY_WRITE);
          cb = text_cbData b val;
          data = take (unat cb) (wstr_bytes val);
          c2 = SetValueEx h name type data cb
      in if fst (RegCreateKeyEx api k p REG_OPTION_NON_VOLATILE KEY_WRITE) \<noteq> ERROR_SUCCESS
         then ([c1, MessageBoxA ''failed to RegCreateKeyEx'' ''error'' MB_ICONERROR], None)
         else if RegSetValueEx api h name type data cb \<noteq> ERROR_SUCCESS
         then ([c1, c2, MessageBoxA ''failed to RegSetValueEx'' ''error'' MB_ICONERROR], None)
         else ([c1, c2, CloseKey h], None))"
  by (simp add: RegWrite_text_try_def Let_def split: prod.split)

lemma RegWrite_dword_caught:
  "catch_std_exception (RegWrite_dword_try api k p name dval type) =
     (let c1 = CreateKeyEx k p REG_OPTION_NON_VOLATILE KEY_WRITE;
          h = snd (RegCreateKeyEx api k p REG_OPTION_NON_VOLATILE KEY_WRITE);
          cb = word_of_nat sizeof_DWORD;
          data = take (unat cb) (dword_bytes dval);
          c2 = SetValueEx h name type data cb
      in if fst (RegCreateKeyEx api k p REG_OPTION_NON_VOLATILE KEY_WRITE) \<noteq> ERROR_SUCCESS
         then ([c1, MessageBoxA ''failed to RegCreateKeyEx'' ''error'' MB_ICONERROR], None)
         else if RegSetValueEx api h name type data cb \<noteq> ERROR_SUCCESS
         then ([c1, c2, MessageBoxA ''failed to RegSetValueEx'' ''error'' MB_ICONERROR], None)
         else ([c1, c2, CloseKey h], None))"
  by (simp add: RegWrite_dword_try_def Let_def split: prod.split)

lemma RegDel_key_caught:
  "catch_std_exception (RegDel_key_try api k p) =
     (if RegDeleteKey api k p \<noteq> ERROR_SUCCESS
      then ([DeleteKey k p, MessageBoxA ''failed to RegDeleteKey'' ''error'' MB_ICONERROR], None)
      else ([DeleteKey k p, CloseKey k], None))"
  by (simp add: RegDel_key_try_def Let_def)

lemma RegDel_value_caught:
  "catch_std_exception (RegDel_value_try api k p name) =
     (let c1 = OpenKeyEx k p KEY_ALL_ACCESS;
          h = snd (RegOpenKeyEx api k p KEY_ALL_ACCESS);
          c2 = DeleteValue h name
      in if fst (RegOpenKeyEx api k p KEY_ALL_ACCESS) \<noteq> ERROR_SUCCESS
         then ([c1, MessageBoxA ''failed to RegOpenKeyEx'' ''error'' MB_ICONERROR], None)
         else if RegDeleteValue api h name \<noteq> ERROR_SUCCESS
         then ([c1, c2, MessageBoxA ''failed to RegDeleteValue'' ''error'' MB_ICONERROR], None)
         else ([c1, c2, CloseKey h], None))"
  by (simp add: RegDel_value_try_def Let_def split: prod.split)

lemmas caught = RegWrite_text_caught RegWrite_dword_caught RegDel_key_caught RegDel_value_caught

lemmas resolved =
  RegWrite_text_resolved RegWrite_dword_resolved RegDel_key_resolved RegDel_value_resolved

section \<open>Root resolution\<close>

text \<open>
  C1. A path whose first five characters are exactly \<open>HKCU\<close>, \<open>HKLM\<close> or \<open>HKCR\<close> followed by
  a backslash resolves to \<open>HKEY_CURRENT_USER\<close>, \<open>HKEY_LOCAL_MACHINE\<close> or \<open>HKEY_CLASSES_ROOT\<close> respectively, and each
  of the four operations makes its first registry call on that root with the path less its
  first five characters as the subkey.
\<close>

theorem known_prefix_selects_root_and_subkey:
  assumes "(pre, k) \<in> {(HKCU_prefix, HKEY_CURRENT_USER), (HKLM_prefix, HKEY_LOCAL_MACHINE),
                        (HKCR_prefix, HKEY_CLASSES_ROOT)}"
    and "take 5 path = pre"
  shows "find_root b path = Inr (k, drop 5 path) \<and>
    (\<exists>cs. RegWrite_text api b path name val type =
       Inr (CreateKeyEx k (drop 5 path) REG_OPTION_NON_VOLATILE KEY_WRITE # cs, None)) \<and>
    (\<exists>cs. RegWrite_dword api b path name dval type =
       Inr (CreateKeyEx k (drop 5 path) REG_OPTION_NON_VOLATILE KEY_WRITE # cs, None)) \<and>
    (\<exists>cs. RegDel_key api b path = Inr (DeleteKey k (drop 5 path) # cs, None)) \<and>
    (\<exists>cs. RegDel_value api b path name =
       Inr (OpenKeyEx k (drop 5 path) KEY_ALL_ACCESS # cs, None))"
proof -
  have r: "find_root b path = Inr (k, drop 5 path)"
    using assms by (rule find_root_known)
  show ?thesis
    by (simp add: r resolved [OF r] caught Let_def)
qed

theorem known_prefix_selects_root_and_subkey_witness:
  "find_root Win64 (wide (''HKLM'' @ bsl # ''Software'')) =
     Inr (HKEY_LOCAL_MACHINE, wide ''Software'') \<and>
   RegDel_key registry_ok Win64 (wide (''HKLM'' @ bsl # ''Software'')) =
     Inr ([DeleteKey HKEY_LOCAL_MACHINE (wide ''Software''),
           CloseKey HKEY_LOCAL_MACHINE], None)"
proof -
  have t: "take 5 (wide (''HKLM'' @ bsl # ''Software'')) = HKLM_prefix"
    by (simp add: wide_def HKLM_prefix_def)
  have d: "drop 5 (wide (''HKLM'' @ bsl # ''Software'')) = wide ''Software''"
    by (simp add: wide_def)
  have m: "(HKLM_prefix, HKEY_LOCAL_MACHINE) \<in>
      {(HKCU_prefix, HKEY_CURRENT_USER), (HKLM_prefix, HKEY_LOCAL_MACHINE),
       (HKCR_prefix, HKEY_CLASSES_ROOT)}"
    by simp
  from known_prefix_selects_root_and_subkey [OF m t, of Win64 registry_ok]
  show ?thesis
    unfolding d
    by (simp add: RegDel_key_def RegDel_key_try_def registry_defs)
qed

text \<open>
  C2. The claim: a path that begins with none of the three prefixes resolves to the default
  root \<open>HKEY_CURRENT_USER\<close> with the path unchanged. The code does not get there: after the
  three prefixes have been compared, the loop goes on to \<open>j = 3\<close>, which is below
  \<open>sizeof(branch)\<close>, and reads \<open>branch[3]\<close> outside the array. Shown at the path
  \<open>Software\Test\<close> (with a backslash between the two words) for every operation.
\<close>

theorem unmatched_path_reads_outside_branch:
  "take 5 (wide (''Software'' @ bsl # ''Test'')) \<notin> set branch \<and>
   find_root b (wide (''Software'' @ bsl # ''Test'')) = Inl (OutOfBounds 3) \<and>
   find_root b (wide (''Software'' @ bsl # ''Test'')) \<noteq>
     Inr (HKEY_CURRENT_USER, wide (''Software'' @ bsl # ''Test'')) \<and>
   RegWrite_text api b (wide (''Software'' @ bsl # ''Test'')) name val type =
     Inl (OutOfBounds 3) \<and>
   RegWrite_dword api b (wide (''Software'' @ bsl # ''Test'')) name dval type =
     Inl (OutOfBounds 3) \<and>
   RegDel_key api b (wide (''Software'' @ bsl # ''Test'')) = Inl (OutOfBounds 3) \<and>
   RegDel_value api b (wide (''Software'' @ bsl # ''Test'')) name = Inl (OutOfBounds 3)"
proof -
  have n: "take 5 (wide (''Software'' @ bsl # ''Test'')) \<notin> set branch"
    by (simp add: set_branch prefix_defs wide_def)
  from n operations_unknown [OF n, of b api name val type dval]
  show ?thesis by blast
qed




text \<open>
  C10. The claim: a path that names a root without the backslash, such as \<open>HKCU\<close> alone or
  \<open>HKLM\<close> followed by another character, matches no prefix and is used unchanged as a subkey
  of \<open>HKEY_CURRENT_USER\<close>. On the code such a path does match no prefix, but the loop then
  reads \<open>branch[3]\<close> outside the array instead of falling through to the default. Shown at
  the paths \<open>HKCU\<close> and \<open>HKLM/Software\<close>.
\<close>

theorem root_name_without_backslash_reads_outside_branch:
  "wcsncmp (wide ''HKCU'') HKCU_prefix 5 \<noteq> 0 \<and>
   wcsncmp (wide ''HKCU'') HKLM_prefix 5 \<noteq> 0 \<and>
   wcsncmp (wide ''HKCU'') HKCR_prefix 5 \<noteq> 0 \<and>
   wcsncmp (wide ''HKLM/Software'') HKCU_prefix 5 \<noteq> 0 \<and>
   wcsncmp (wide ''HKLM/Software'') HKLM_prefix 5 \<noteq> 0 \<and>
   wcsncmp (wide ''HKLM/Software'') HKCR_prefix 5 \<noteq> 0 \<and>
   find_root b (wide ''HKCU'') = Inl (OutOfBounds 3) \<and>
   find_root b (wide ''HKLM/Software'') = Inl (OutOfBounds 3) \<and>
   find_root b (wide ''HKCU'') \<noteq> Inr (HKEY_CURRENT_USER, wide ''HKCU'') \<and>
   RegWrite_text api b (wide ''HKCU'') name val type = Inl (OutOfBounds 3) \<and>
   RegWrite_dword api b (wide ''HKCU'') name dval type = Inl (OutOfBounds 3) \<and>
   RegDel_key api b (wide ''HKCU'') = Inl (OutOfBounds 3) \<and>
   RegDel_value api b (wide ''HKCU'') name = Inl (OutOfBounds 3)"
proof -
  have n1: "take 5 (wide ''HKCU'') \<notin> set branch"
    by (simp add: set_branch prefix_defs wide_def)
  have n2: "take 5 (wide ''HKLM/Software'') \<notin> set branch"
    by (simp add: set_branch prefix_defs wide_def bsl_def)
  have c1: "wcsncmp (wide ''HKCU'') pre 5 \<noteq> 0" if "pre \<in> set branch" for pre
    using n1 that by (auto simp: matches_prefix)
  have c2: "wcsncmp (wide ''HKLM/Software'') pre 5 \<noteq> 0" if "pre \<in> set branch" for pre
    using n2 that by (auto simp: matches_prefix)
  have r2: "find_root b (wide ''HKLM/Software'') = Inl (OutOfBounds 3)"
    using n2 by (rule find_root_unknown)
  from c1 [OF in_branch(1)] c1 [OF in_branch(2)] c1 [OF in_branch(3)]
    c2 [OF in_branch(1)] c2 [OF in_branch(2)] c2 [OF in_branch(3)]
    r2 operations_unknown [OF n1, of b api name val type dval]
  show ?thesis by blast
qed

section \<open>Runs of the operations\<close>

lemma sample_path_resolved: "find_root b sample_path = Inr (HKEY_CURRENT_USER, sample_subkey)"
proof -
  have t: "take 5 sample_path = HKCU_prefix"
    by (simp add: sample_path_def wide_def HKCU_prefix_def)
  have d: "drop 5 sample_path = sample_subkey"
    by (simp add: sample_path_def sample_subkey_def wide_def)
  show ?thesis
    using find_root_known [of HKCU_prefix HKEY_CURRENT_USER, OF _ t, of b] d by simp
qed

lemma diagnostics_ascii: "t \<in> set diagnostics \<Longrightarrow> \<forall>ch \<in> set t. (of_char ch :: nat) < 128"
  by (auto simp: diagnostics_def)

lemma diagnostic_known:
  "failed api c \<Longrightarrow> diagnostic c \<in> set diagnostics \<and> \<not> is_MessageBoxA c \<and> \<not> is_CloseKey c"
  by (cases c) (simp_all add: diagnostics_def)

lemma not_box_mem: "\<not> is_MessageBoxA c \<Longrightarrow> MessageBoxA t title flags \<noteq> c"
  by (cases c) simp_all

lemma completion_operations:
  "completion (RegWrite_text api b path name val type) = map_sum id (\<lambda>u. None) (find_root b path)"
  "completion (RegWrite_dword api b path name dval type) = map_sum id (\<lambda>u. None) (find_root b path)"
  "completion (RegDel_key api b path) = map_sum id (\<lambda>u. None) (find_root b path)"
  "completion (RegDel_value api b path name) = map_sum id (\<lambda>u. None) (find_root b path)"
  by (auto simp: RegWrite_text_def RegWrite_dword_def RegDel_key_def RegDel_value_def caught
      Let_def split: sum.split)

lemma quiet_simps:
  "quiet api []"
  "quiet api (c # cs) = (\<not> failed api c \<and> \<not> is_MessageBoxA c \<and> \<not> is_CloseKey c \<and> quiet api cs)"
  by (auto simp: quiet_def)

lemma quiet_props:
  assumes "quiet api cs"
  shows "\<not> (\<exists>c \<in> set cs. failed api c)" "\<not> (\<exists>c \<in> set cs. is_MessageBoxA c)"
    "\<not> (\<exists>c \<in> set cs. is_CloseKey c)" "filter is_MessageBoxA cs = []"
    "MessageBoxA t title flags \<notin> set cs" "CloseKey h \<notin> set cs"
  using assms by (auto simp: quiet_def filter_empty_conv)

text \<open>
  Every run that got past the loop has one of two shapes: calls that all succeeded, closed by
  \<open>RegCloseKey\<close>; or calls that succeeded, one that failed, and the message box for it.
\<close>

lemma run_shape:
  assumes "find_root b path = Inr (k, p)"
    and "r \<in> {RegWrite_text api b path name val type, RegWrite_dword api b path name dval type,
               RegDel_key api b path, RegDel_value api b path name}"
  shows "(\<exists>cs h. r = Inr (cs @ [CloseKey h], None) \<and> quiet api cs) \<or>
     (\<exists>cs c. r = Inr (cs @ [c, MessageBoxA (diagnostic c) ''error'' MB_ICONERROR], None) \<and>
        quiet api cs \<and> failed api c)"
proof -
  consider "r = RegWrite_text api b path name val type"
    | "r = RegWrite_dword api b path name dval type"
    | "r = RegDel_key api b path" | "r = RegDel_value api b path name"
    using assms(2) by blast
  then show ?thesis
  proof cases
    case 1
    show ?thesis
      unfolding 1 resolved [OF assms(1)] caught Let_def
      by (simp add: quiet_simps)
  next
    case 2
    show ?thesis
      unfolding 2 resolved [OF assms(1)] caught Let_def
      by (simp add: quiet_simps)
  next
    case 3
    show ?thesis
      unfolding 3 resolved [OF assms(1)] caught Let_def
      by (simp add: quiet_simps)
  next
    case 4
    show ?thesis
      unfolding 4 resolved [OF assms(1)] caught Let_def
      by (simp add: quiet_simps)
  qed
qed

section \<open>Failures\<close>

text \<open>
  C4. Once the root is resolved, every operation returns normally whatever the registry
  answers: no exception is left in flight, and when a tested primitive fails the last thing
  the operation does is show the message box for that primitive. What the caller gets back
  does not depend on the registry's answers, so success and failure look the same to it.
\<close>

theorem failure_is_reported_and_call_returns:
  assumes "find_root b path = Inr (k, p)"
    and "r \<in> {RegWrite_text api b path name val type, RegWrite_dword api b path name dval type,
               RegDel_key api b path, RegDel_value api b path name}"
  shows "\<exists>cs. r = Inr (cs, None) \<and> completion r = Inr None \<and>
     ((\<exists>c \<in> set cs. failed api c) \<longrightarrow>
        (\<exists>c \<in> set cs. failed api c \<and>
           last cs = MessageBoxA (diagnostic c) ''error'' MB_ICONERROR)) \<and>
     completion (RegWrite_text api b path name val type) =
       completion (RegWrite_text api' b path name val type) \<and>
     completion (RegWrite_dword api b path name dval type) =
       completion (RegWrite_dword api' b path name dval type) \<and>
     completion (RegDel_key api b path) = completion (RegDel_key api' b path) \<and>
     completion (RegDel_value api b path name) = completion (RegDel_value api' b path name)"
proof -
  have same: "completion (RegWrite_text api b path name val type) =
       completion (RegWrite_text api' b path name val type) \<and>
     completion (RegWrite_dword api b path name dval type) =
       completion (RegWrite_dword api' b path name dval type) \<and>
     completion (RegDel_key api b path) = completion (RegDel_key api' b path) \<and>
     completion (RegDel_value api b path name) = completion (RegDel_value api' b path name)"
    by (simp only: completion_operations)
  from run_shape [OF assms]
  have "\<exists>cs. r = Inr (cs, None) \<and> completion r = Inr None \<and>
     ((\<exists>c \<in> set cs. failed api c) \<longrightarrow>
        (\<exists>c \<in> set cs. failed api c \<and>
           last cs = MessageBoxA (diagnostic c) ''error'' MB_ICONERROR))"
  proof (elim disjE exE conjE)
    fix cs h
    assume "r = Inr (cs @ [CloseKey h], None)" "quiet api cs"
    then show ?thesis
      using quiet_props(1) [of api cs] by simp
  next
    fix cs c
    assume "r = Inr (cs @ [c, MessageBoxA (diagnostic c) ''error'' MB_ICONERROR], None)"
      "quiet api cs" "failed api c"
    then show ?thesis by auto
  qed
  with same show ?thesis by blast
qed

theorem failure_is_reported_and_call_returns_witness:
  "find_root Win64 sample_path = Inr (HKEY_CURRENT_USER, sample_subkey) \<and>
   failed registry_denied (DeleteKey HKEY_CURRENT_USER sample_subkey) \<and>
   RegDel_key registry_denied Win64 sample_path =
     Inr ([DeleteKey HKEY_CURRENT_USER sample_subkey,
           MessageBoxA ''failed to RegDeleteKey'' ''error'' MB_ICONERROR], None) \<and>
   completion (RegDel_key registry_denied Win64 sample_path) =
     completion (RegDel_key registry_ok Win64 sample_path)"
proof -
  note r = sample_path_resolved [of Win64]
  have m: "RegDel_key registry_denied Win64 sample_path \<in>
      {RegWrite_text registry_denied Win64 sample_path [] [] 0,
       RegWrite_dword registry_denied Win64 sample_path [] 0 0,
       RegDel_key registry_denied Win64 sample_path,
       RegDel_value registry_denied Win64 sample_path []}"
    by simp
  from failure_is_reported_and_call_returns [OF r m, of registry_ok]
  show ?thesis
    by (simp add: r RegDel_key_def RegDel_key_try_def registry_defs)
qed

text \<open>
  C9. Once the root is resolved, an operation shows a message box exactly when one of its
  tested primitives failed, and at most one. Its caption is \<open>error\<close>, its icon the error
  icon, and its text is the diagnostic of the primitive that failed: one of five distinct
  ASCII strings, one for each of \<open>RegCreateKeyEx\<close>, \<open>RegSetValueEx\<close>, \<open>RegDeleteKey\<close>,
  \<open>RegOpenKeyEx\<close> and \<open>RegDeleteValue\<close>.
\<close>

theorem message_box_iff_failure:
  assumes "find_root b path = Inr (k, p)"
    and "r \<in> {RegWrite_text api b path name val type, RegWrite_dword api b path name dval type,
               RegDel_key api b path, RegDel_value api b path name}"
  shows "\<exists>cs. r = Inr (cs, None) \<and>
     ((\<exists>c \<in> set cs. is_MessageBoxA c) \<longleftrightarrow> (\<exists>c \<in> set cs. failed api c)) \<and>
     length (filter is_MessageBoxA cs) \<le> 1 \<and>
     (\<forall>c \<in> set cs. failed api c \<longrightarrow>
        MessageBoxA (diagnostic c) ''error'' MB_ICONERROR \<in> set cs) \<and>
     (\<forall>t title flags. MessageBoxA t title flags \<in> set cs \<longrightarrow>
        title = ''error'' \<and> flags = MB_ICONERROR \<and> t \<in> set diagnostics \<and>
        (\<forall>ch \<in> set t. (of_char ch :: nat) < 128)) \<and>
     distinct diagnostics \<and> length diagnostics = 5"
proof -
  have d: "distinct diagnostics \<and> length diagnostics = 5"
    by (simp add: diagnostics_def)
  from run_shape [OF assms]
  have "\<exists>cs. r = Inr (cs, None) \<and>
     ((\<exists>c \<in> set cs. is_MessageBoxA c) \<longleftrightarrow> (\<exists>c \<in> set cs. failed api c)) \<and>
     length (filter is_MessageBoxA cs) \<le> 1 \<and>
     (\<forall>c \<in> set cs. failed api c \<longrightarrow>
        MessageBoxA (diagnostic c) ''error'' MB_ICONERROR \<in> set cs) \<and>
     (\<forall>t title flags. MessageBoxA t title flags \<in> set cs \<longrightarrow>
        title = ''error'' \<and> flags = MB_ICONERROR \<and> t \<in> set diagnostics \<and>
        (\<forall>ch \<in> set t. (of_char ch :: nat) < 128))"
  proof (elim disjE exE conjE)
    fix cs h
    assume "r = Inr (cs @ [CloseKey h], None)" "quiet api cs"
    then show ?thesis
      using quiet_props [of api cs] by simp
  next
    fix cs c
    assume r: "r = Inr (cs @ [c, MessageBoxA (diagnostic c) ''error'' MB_ICONERROR], None)"
      and q: "quiet api cs" and f: "failed api c"
    note k = diagnostic_known [OF f]
    from k have a: "\<forall>ch \<in> set (diagnostic c). (of_char ch :: nat) < 128"
      using diagnostics_ascii by blast
    show ?thesis
      unfolding r
      using quiet_props [OF q] k a f not_box_mem [of c]
      by (simp add: conj_disj_distribR ball_Un bex_Un)
  qed
  with d show ?thesis by blast
qed

theorem message_box_iff_failure_witness:
  "find_root Win32 sample_path = Inr (HKEY_CURRENT_USER, sample_subkey) \<and>
   RegDel_value registry_values_locked Win32 sample_path (wide ''Name'') =
     Inr ([OpenKeyEx HKEY_CURRENT_USER sample_subkey KEY_ALL_ACCESS,
           DeleteValue (Opened 1) (wide ''Name''),
           MessageBoxA ''failed to RegDeleteValue'' ''error'' MB_ICONERROR], None) \<and>
   failed registry_values_locked (DeleteValue (Opened 1) (wide ''Name'')) \<and>
   ''failed to RegDeleteValue'' \<in> set diagnostics"
proof -
  note r = sample_path_resolved [of Win32]
  have m: "RegDel_value registry_values_locked Win32 sample_path (wide ''Name'') \<in>
      {RegWrite_text registry_values_locked Win32 sample_path (wide ''Name'') [] 0,
       RegWrite_dword registry_values_locked Win32 sample_path (wide ''Name'') 0 0,
       RegDel_key registry_values_locked Win32 sample_path,
       RegDel_value registry_values_locked Win32 sample_path (wide ''Name'')}"
    by simp
  from message_box_iff_failure [OF r m]
  show ?thesis
    by (simp add: r RegDel_value_def RegDel_value_try_def registry_defs diagnostics_def)
qed

section \<open>Handles\<close>

text \<open>
  C7. In both \<open>RegWrite\<close> overloads \<open>RegCloseKey\<close> is called exactly when no tested
  primitive failed. In particular, when the key was created and \<open>RegSetValueEx\<close> fails, the
  run is the creation, the failed write and the message box: the handle that the creation
  gave out is not closed.
\<close>

theorem key_closed_iff_every_step_succeeds:
  assumes "find_root b path = Inr (k, p)"
    and "r \<in> {RegWrite_text api b path name val type, RegWrite_dword api b path name dval type}"
  shows "(\<exists>cs. r = Inr (cs, None) \<and>
       ((\<exists>c \<in> set cs. is_CloseKey c) \<longleftrightarrow> \<not> (\<exists>c \<in> set cs. failed api c))) \<and>
     (let c1 = CreateKeyEx k p REG_OPTION_NON_VOLATILE KEY_WRITE;
          h = snd (RegCreateKeyEx api k p REG_OPTION_NON_VOLATILE KEY_WRITE);
          c2 = SetValueEx h name type (take (unat (text_cbData b val)) (wstr_bytes val))
                 (text_cbData b val)
      in \<not> failed api c1 \<longrightarrow>
         RegWrite_text api b path name val type =
           Inr (if failed api c2
                then [c1, c2, MessageBoxA ''failed to RegSetValueEx'' ''error'' MB_ICONERROR]
                else [c1, c2, CloseKey h], None)) \<and>
     (let c1 = CreateKeyEx k p REG_OPTION_NON_VOLATILE KEY_WRITE;
          h = snd (RegCreateKeyEx api k p REG_OPTION_NON_VOLATILE KEY_WRITE);
          c2 = SetValueEx h name type
                 (take (unat (word_of_nat sizeof_DWORD :: DWORD)) (dword_bytes dval))
                 (word_of_nat sizeof_DWORD)
      in \<not> failed api c1 \<longrightarrow>
         RegWrite_dword api b path name dval type =
           Inr (if failed api c2
                then [c1, c2, MessageBoxA ''failed to RegSetValueEx'' ''error'' MB_ICONERROR]
                else [c1, c2, CloseKey h], None))"
proof -
  have "r \<in> {RegWrite_text api b path name val type, RegWrite_dword api b path name dval type,
               RegDel_key api b path, RegDel_value api b path name}"
    using assms(2) by blast
  from run_shape [OF assms(1) this]
  have iff: "\<exists>cs. r = Inr (cs, None) \<and>
       ((\<exists>c \<in> set cs. is_CloseKey c) \<longleftrightarrow> \<not> (\<exists>c \<in> set cs. failed api c))"
  proof (elim disjE exE conjE)
    fix cs h
    assume "r = Inr (cs @ [CloseKey h], None)" "quiet api cs"
    then show ?thesis
      using quiet_props [of api cs] by simp
  next
    fix cs c
    assume "r = Inr (cs @ [c, MessageBoxA (diagnostic c) ''error'' MB_ICONERROR], None)"
      "quiet api cs" "failed api c"
    then show ?thesis
      using quiet_props [of api cs] diagnostic_known [of api c] by auto
  qed
  show ?thesis
    by (rule conjI [OF iff]) (simp add: resolved [OF assms(1)] caught Let_def)
qed

theorem key_closed_iff_every_step_succeeds_witness:
  "find_root Win64 sample_path = Inr (HKEY_CURRENT_USER, sample_subkey) \<and>
   \<not> failed registry_values_locked
       (CreateKeyEx HKEY_CURRENT_USER sample_subkey REG_OPTION_NON_VOLATILE KEY_WRITE) \<and>
   RegWrite_dword registry_values_locked Win64 sample_path (wide ''Count'') 7 REG_DWORD =
     Inr ([CreateKeyEx HKEY_CURRENT_USER sample_subkey REG_OPTION_NON_VOLATILE KEY_WRITE,
           SetValueEx (Opened 1) (wide ''Count'') REG_DWORD [7, 0, 0, 0] 4,
           MessageBoxA ''failed to RegSetValueEx'' ''error'' MB_ICONERROR], None) \<and>
   RegWrite_dword registry_ok Win64 sample_path (wide ''Count'') 7 REG_DWORD =
     Inr ([CreateKeyEx HKEY_CURRENT_USER sample_subkey REG_OPTION_NON_VOLATILE KEY_WRITE,
           SetValueEx (Opened 1) (wide ''Count'') REG_DWORD [7, 0, 0, 0] 4,
           CloseKey (Opened 1)], None)"
proof -
  note r = sample_path_resolved [of Win64]
  have m: "RegWrite_dword api Win64 sample_path (wide ''Count'') 7 REG_DWORD \<in>
      {RegWrite_text api Win64 sample_path (wide ''Count'') [] REG_DWORD,
       RegWrite_dword api Win64 sample_path (wide ''Count'') 7 REG_DWORD}" for api
    by simp
  from key_closed_iff_every_step_succeeds [OF r m [of registry_values_locked]]
    key_closed_iff_every_step_succeeds [OF r m [of registry_ok]]
  show ?thesis
    by (simp add: r registry_defs Let_def sizeof_DWORD_def dword_bytes_def)
qed

section \<open>Deleting a value\<close>

text \<open>
  C8. \<open>RegDel\<close> with a path and a name resolves the root and the subkey from the path: for
  a path that begins with a known prefix, the root of that prefix and the path less its
  first five characters. It then opens that subkey of that root with \<open>KEY_ALL_ACCESS\<close>,
  deletes the named value through the handle it got and closes that handle, in this order.
  When the opening fails it shows the message box and does nothing more; when the deletion
  fails it shows the message box and does nothing more. On any path, nothing is done on the
  registry unless the root was resolved.
\<close>

theorem RegDel_value_steps:
  assumes "(pre, k) \<in> {(HKCU_prefix, HKEY_CURRENT_USER), (HKLM_prefix, HKEY_LOCAL_MACHINE),
                        (HKCR_prefix, HKEY_CLASSES_ROOT)}"
    and "take 5 path = pre"
  shows "find_root b path = Inr (k, drop 5 path) \<and>
    RegDel_value api b path name =
     (let c1 = OpenKeyEx k (drop 5 path) KEY_ALL_ACCESS;
          h = snd (RegOpenKeyEx api k (drop 5 path) KEY_ALL_ACCESS);
          c2 = DeleteValue h name
      in Inr (if failed api c1
              then [c1, MessageBoxA ''failed to RegOpenKeyEx'' ''error'' MB_ICONERROR]
              else if failed api c2
              then [c1, c2, MessageBoxA ''failed to RegDeleteValue'' ''error'' MB_ICONERROR]
              else [c1, c2, CloseKey h], None)) \<and>
    RegDel_value api b' path' name =
     (case find_root b' path' of
        Inl f \<Rightarrow> Inl f
      | Inr (k', p') \<Rightarrow>
          (let c1 = OpenKeyEx k' p' KEY_ALL_ACCESS;
               h = snd (RegOpenKeyEx api k' p' KEY_ALL_ACCESS);
               c2 = DeleteValue h name
           in Inr (if failed api c1
                   then [c1, MessageBoxA ''failed to RegOpenKeyEx'' ''error'' MB_ICONERROR]
                   else if failed api c2
                   then [c1, c2, MessageBoxA ''failed to RegDeleteValue'' ''error'' MB_ICONERROR]
                   else [c1, c2, CloseKey h], None)))"
proof -
  have r: "find_root b path = Inr (k, drop 5 path)"
    using assms by (rule find_root_known)
  have pinned: "RegDel_value api b path name =
     (let c1 = OpenKeyEx k (drop 5 path) KEY_ALL_ACCESS;
          h = snd (RegOpenKeyEx api k (drop 5 path) KEY_ALL_ACCESS);
          c2 = DeleteValue h name
      in Inr (if failed api c1
              then [c1, MessageBoxA ''failed to RegOpenKeyEx'' ''error'' MB_ICONERROR]
              else if failed api c2
              then [c1, c2, MessageBoxA ''failed to RegDeleteValue'' ''error'' MB_ICONERROR]
              else [c1, c2, CloseKey h], None))"
    by (simp add: RegDel_value_resolved [OF r] caught Let_def)
  have every: "RegDel_value api b' path' name =
     (case find_root b' path' of
        Inl f \<Rightarrow> Inl f
      | Inr (k', p') \<Rightarrow>
          (let c1 = OpenKeyEx k' p' KEY_ALL_ACCESS;
               h = snd (RegOpenKeyEx api k' p' KEY_ALL_ACCESS);
               c2 = DeleteValue h name
           in Inr (if failed api c1
                   then [c1, MessageBoxA ''failed to RegOpenKeyEx'' ''error'' MB_ICONERROR]
                   else if failed api c2
                   then [c1, c2, MessageBoxA ''failed to RegDeleteValue'' ''error'' MB_ICONERROR]
                   else [c1, c2, CloseKey h], None)))"
    by (simp add: RegDel_value_def caught Let_def split: sum.split)
  from r pinned every show ?thesis by (rule conjI [OF _ conjI])
qed

theorem RegDel_value_steps_witness:
  "take 5 sample_machine_path = HKLM_prefix \<and> drop 5 sample_machine_path = sample_subkey \<and>
   RegDel_value registry_ok Win64 sample_machine_path (wide ''Name'') =
     Inr ([OpenKeyEx HKEY_LOCAL_MACHINE sample_subkey KEY_ALL_ACCESS,
           DeleteValue (Opened 1) (wide ''Name''), CloseKey (Opened 1)], None) \<and>
   RegDel_value registry_denied Win64 sample_machine_path (wide ''Name'') =
     Inr ([OpenKeyEx HKEY_LOCAL_MACHINE sample_subkey KEY_ALL_ACCESS,
           MessageBoxA ''failed to RegOpenKeyEx'' ''error'' MB_ICONERROR], None) \<and>
   RegDel_value registry_values_locked Win64 sample_machine_path (wide ''Name'') =
     Inr ([OpenKeyEx HKEY_LOCAL_MACHINE sample_subkey KEY_ALL_ACCESS,
           DeleteValue (Opened 1) (wide ''Name''),
           MessageBoxA ''failed to RegDeleteValue'' ''error'' MB_ICONERROR], None) \<and>
   KEY_ALL_ACCESS = 0xF003F"
proof -
  have t: "take 5 sample_machine_path = HKLM_prefix"
    by (simp add: sample_machine_path_def wide_def HKLM_prefix_def)
  have d: "drop 5 sample_machine_path = sample_subkey"
    by (simp add: sample_machine_path_def sample_subkey_def wide_def)
  have m: "(HKLM_prefix, HKEY_LOCAL_MACHINE) \<in>
      {(HKCU_prefix, HKEY_CURRENT_USER), (HKLM_prefix, HKEY_LOCAL_MACHINE),
       (HKCR_prefix, HKEY_CLASSES_ROOT)}"
    by simp
  from RegDel_value_steps [OF m t, of Win64 registry_ok "wide ''Name''"]
    RegDel_value_steps [OF m t, of Win64 registry_denied "wide ''Name''"]
    RegDel_value_steps [OF m t, of Win64 registry_values_locked "wide ''Name''"]
  show ?thesis
    by (simp add: t d registry_defs KEY_ALL_ACCESS_def Let_def)
qed

section \<open>Payloads\<close>

text \<open>
  C6. When the key is created, the numeric overload passes to \<open>RegSetValueEx\<close> the four
  bytes of the \<open>DWORD\<close> and the length \<open>sizeof(DWORD) = 4\<close>, with the caller's type tag passed
  on as it is: neither the bytes nor the length depend on the tag. The bytes decode to the
  value.
\<close>

theorem numeric_payload_is_sizeof_DWORD:
  assumes "find_root b path = Inr (k, p)"
    and "RegCreateKeyEx api k p REG_OPTION_NON_VOLATILE KEY_WRITE = (ERROR_SUCCESS, h)"
  shows "(\<exists>cs. RegWrite_dword api b path name dval type =
        Inr ([CreateKeyEx k p REG_OPTION_NON_VOLATILE KEY_WRITE,
              SetValueEx h name type (dword_bytes dval) 4] @ cs, None) \<and>
        length cs = 1 \<and> (is_CloseKey (hd cs) \<or> is_MessageBoxA (hd cs))) \<and>
     length (dword_bytes dval) = sizeof_DWORD \<and> sizeof_DWORD = 4 \<and>
     dword_of_bytes (dword_bytes dval) = dval"
  by (simp add: resolved [OF assms(1)] caught Let_def assms(2) length_dword_bytes dword_roundtrip)
    (simp add: sizeof_DWORD_def dword_bytes_def)

theorem numeric_payload_is_sizeof_DWORD_witness:
  "find_root Win64 sample_path = Inr (HKEY_CURRENT_USER, sample_subkey) \<and>
   RegCreateKeyEx registry_ok HKEY_CURRENT_USER sample_subkey REG_OPTION_NON_VOLATILE KEY_WRITE =
     (ERROR_SUCCESS, Opened 1) \<and>
   RegWrite_dword registry_ok Win64 sample_path (wide ''Count'') 0x12345678 REG_SZ =
     Inr ([CreateKeyEx HKEY_CURRENT_USER sample_subkey REG_OPTION_NON_VOLATILE KEY_WRITE,
           SetValueEx (Opened 1) (wide ''Count'') REG_SZ [0x78, 0x56, 0x34, 0x12] 4,
           CloseKey (Opened 1)], None) \<and>
   dword_of_bytes [0x78, 0x56, 0x34, 0x12] = 0x12345678"
proof -
  note r = sample_path_resolved [of Win64]
  have c: "RegCreateKeyEx registry_ok HKEY_CURRENT_USER sample_subkey REG_OPTION_NON_VOLATILE
      KEY_WRITE = (ERROR_SUCCESS, Opened 1)"
    by (simp add: registry_defs)
  from numeric_payload_is_sizeof_DWORD [OF r c, of "wide ''Count''" "0x12345678" REG_SZ]
  show ?thesis
    by (simp add: r c resolved [OF r] caught Let_def registry_defs sizeof_DWORD_def
        dword_bytes_def dword_of_bytes_def)
qed

text \<open>
  C5. The claim: the length passed for a text value is (character count + 1) times the
  width of a wide character. The product is computed in \<open>size_t\<close> and passed as a \<open>DWORD\<close>,
  so it arrives reduced modulo \<open>2 ^ 32\<close>: for a value of \<open>2 ^ 31 - 1\<close> characters on a 64-bit
  build the product is \<open>2 ^ 32\<close> and the length passed is 0, with no bytes of the value.
\<close>

theorem text_length_wraps_at_DWORD:
  "RegWrite_text registry_ok Win64 sample_path (wide ''Name'') (replicate (2 ^ 31 - 1) 0x41)
      REG_SZ =
     Inr ([CreateKeyEx HKEY_CURRENT_USER sample_subkey REG_OPTION_NON_VOLATILE KEY_WRITE,
           SetValueEx (Opened 1) (wide ''Name'') REG_SZ [] 0, CloseKey (Opened 1)], None) \<and>
   (wcslen (replicate (2 ^ 31 - 1) 0x41) + 1) * sizeof_wchar_t = 4294967296 \<and>
   unat (text_cbData Win64 (replicate (2 ^ 31 - 1) 0x41)) \<noteq>
     (wcslen (replicate (2 ^ 31 - 1) 0x41) + 1) * sizeof_wchar_t"
proof -
  note r = sample_path_resolved [of Win64]
  have l: "wcslen (replicate (2 ^ 31 - 1) (0x41 :: wchar_t)) = 2 ^ 31 - 1"
    by (rule wcslen_replicate) simp
  have u: "unat (text_cbData Win64 (replicate (2 ^ 31 - 1) 0x41)) = 0"
    by (simp only: unat_text_cbData l sizeof_wchar_t_def) simp
  then have cb: "text_cbData Win64 (replicate (2 ^ 31 - 1) 0x41) = 0"
    by (simp only: unat_eq_0)
  show ?thesis
    by (simp only: resolved [OF r] caught Let_def cb l)
      (simp add: registry_defs sizeof_wchar_t_def)
qed

text \<open>
  C5, amended. When the key is created, the length passed to \<open>RegSetValueEx\<close> for a text value
  is (character count + 1) times the width of a wide character, modulo \<open>2 ^ 32\<close>. Whenever
  that product is below \<open>2 ^ 32\<close> the length is the product itself, and the bytes passed are
  those of the value with its terminator.
\<close>

theorem text_length_is_wide_size_mod_DWORD:
  assumes "find_root b path = Inr (k, p)"
    and "RegCreateKeyEx api k p REG_OPTION_NON_VOLATILE KEY_WRITE = (ERROR_SUCCESS, h)"
  shows "\<exists>data cb cs. RegWrite_text api b path name val type =
        Inr ([CreateKeyEx k p REG_OPTION_NON_VOLATILE KEY_WRITE,
              SetValueEx h name type data cb] @ cs, None) \<and>
        length cs = 1 \<and> (is_CloseKey (hd cs) \<or> is_MessageBoxA (hd cs)) \<and>
        unat cb = ((wcslen val + 1) * sizeof_wchar_t) mod 2 ^ 32 \<and>
        ((wcslen val + 1) * sizeof_wchar_t < 2 ^ 32 \<longrightarrow>
           unat cb = (wcslen val + 1) * sizeof_wchar_t \<and> data = wstr_bytes val \<and>
           length data = (wcslen val + 1) * sizeof_wchar_t)"
  by (simp add: resolved [OF assms(1)] caught Let_def assms(2) unat_text_cbData length_wstr_bytes)

theorem text_length_is_wide_size_mod_DWORD_witness:
  "find_root Win64 sample_path = Inr (HKEY_CURRENT_USER, sample_subkey) \<and>
   RegCreateKeyEx registry_ok HKEY_CURRENT_USER sample_subkey REG_OPTION_NON_VOLATILE KEY_WRITE =
     (ERROR_SUCCESS, Opened 1) \<and>
   (wcslen (wide ''Hello'') + 1) * sizeof_wchar_t = 12 \<and> (12::nat) < 2 ^ 32 \<and>
   RegWrite_text registry_ok Win64 sample_path (wide ''Name'') (wide ''Hello'') REG_SZ =
     Inr ([CreateKeyEx HKEY_CURRENT_USER sample_subkey REG_OPTION_NON_VOLATILE KEY_WRITE,
           SetValueEx (Opened 1) (wide ''Name'') REG_SZ
             [0x48, 0, 0x65, 0, 0x6C, 0, 0x6C, 0, 0x6F, 0, 0, 0] 12,
           CloseKey (Opened 1)], None)"
proof -
  note r = sample_path_resolved [of Win64]
  have c: "RegCreateKeyEx registry_ok HKEY_CURRENT_USER sample_subkey REG_OPTION_NON_VOLATILE
      KEY_WRITE = (ERROR_SUCCESS, Opened 1)"
    by (simp add: registry_defs)
  have l: "(wcslen (wide ''Hello'') + 1) * sizeof_wchar_t = 12"
    by (simp add: wide_def sizeof_wchar_t_def)
  have cb: "text_cbData Win64 (wide ''Hello'') = 12"
    by (simp add: text_cbData_def size_t_def wide_def sizeof_wchar_t_def)
  have bytes: "wstr_bytes (wide ''Hello'') = [0x48, 0, 0x65, 0, 0x6C, 0, 0x6C, 0, 0x6F, 0, 0, 0]"
    by (simp add: wide_def wchar_bytes_def)
  from text_length_is_wide_size_mod_DWORD
    [OF r c, of "wide ''Name''" "wide ''Hello''" REG_SZ]
  show ?thesis
    by (simp only: r c l resolved [OF r] caught Let_def cb bytes)
      (simp add: registry_defs)
qed

end
